theory Spec2Isabelle
  imports Complex_Main
begin

section \<open>Travel OS: the decision engines of app.py\<close>

text \<open>
  The module is a Streamlit script: a static catalog (\<open>CITIES\<close>, \<open>ROUTES\<close>), four transport
  modes, two decision functions (\<open>recommend_transport\<close>, \<open>budget_risk\<close>) and a top-level body
  that reads the sidebar widgets and derives the displayed numbers.

  Numbers: the catalog ratings, prices per night and days are Python ints and are modelled as
  \<open>int\<close>. Everything that passes through \<open>/\<close> or through a decimal literal is a Python float;
  floats are idealised here as exact rationals (\<open>rat\<close>), so rounding error of the binary
  representation is not part of the model. Exceptions are values of \<open>py_error\<close>.
  The emoji prefix of the transport labels is left out of the label strings.
\<close>

subsection \<open>Domain models\<close>

datatype py_error = IndexError | KeyError | ZeroDivisionError | ValueError | OverflowError

record City =
  name :: string
  country :: string
  hotel :: int
  food :: int
  safety :: int
  internet :: int
  walkability :: int
  nightlife :: int
  culture :: int

text \<open>
  \<open>round(x, 2)\<close>: the nearest multiple of 1/100, a tie going to the even multiple.
\<close>

definition py_round2 :: "rat \<Rightarrow> rat" where
  "py_round2 x =
     (let y = x * 100;
          f = \<lfloor>y\<rfloor>;
          r = y - of_int f
      in of_int (if r < 1 / 2 then f
                 else if 1 / 2 < r then f + 1
                 else if even f then f else f + 1) / 100)"

definition score :: "City \<Rightarrow> rat" where
  "score c = py_round2 (of_int (safety c + internet c + walkability c + culture c) / 4)"

record TravelerProfile =
  budget :: int
  pace :: string
  priorities :: "string list"

subsection \<open>Transport system\<close>

record Transport =
  tr_name :: string
  price_km :: rat
  speed :: int
  comfort :: int
  eco :: int

definition cost :: "Transport \<Rightarrow> rat \<Rightarrow> rat" where
  "cost t km = km * price_km t"

definition time :: "Transport \<Rightarrow> rat \<Rightarrow> py_error + rat" where
  "time t km = (if speed t = 0 then Inl ZeroDivisionError else Inr (km / of_int (speed t)))"

definition Car :: Transport where
  "Car = \<lparr>tr_name = ''Car'', price_km = 0.25, speed = 80, comfort = 7, eco = 6\<rparr>"

definition Train :: Transport where
  "Train = \<lparr>tr_name = ''Train'', price_km = 0.18, speed = 130, comfort = 8, eco = 9\<rparr>"

definition Plane :: Transport where
  "Plane = \<lparr>tr_name = ''Plane'', price_km = 0.45, speed = 650, comfort = 9, eco = 3\<rparr>"

definition Bus :: Transport where
  "Bus = \<lparr>tr_name = ''Bus'', price_km = 0.12, speed = 70, comfort = 5, eco = 7\<rparr>"

subsection \<open>Data store\<close>

definition CITIES_items :: "(string \<times> City) list" where
  "CITIES_items =
    [(''Sofia'', \<lparr>name = ''Sofia'', country = ''Bulgaria'', hotel = 70, food = 20,
        safety = 7, internet = 8, walkability = 6, nightlife = 6, culture = 8\<rparr>),
     (''Belgrade'', \<lparr>name = ''Belgrade'', country = ''Serbia'', hotel = 65, food = 22,
        safety = 6, internet = 7, walkability = 6, nightlife = 7, culture = 7\<rparr>),
     (''Budapest'', \<lparr>name = ''Budapest'', country = ''Hungary'', hotel = 75, food = 23,
        safety = 8, internet = 8, walkability = 7, nightlife = 8, culture = 8\<rparr>),
     (''Vienna'', \<lparr>name = ''Vienna'', country = ''Austria'', hotel = 95, food = 30,
        safety = 9, internet = 9, walkability = 8, nightlife = 6, culture = 9\<rparr>),
     (''Prague'', \<lparr>name = ''Prague'', country = ''Czech Republic'', hotel = 85, food = 25,
        safety = 8, internet = 8, walkability = 9, nightlife = 7, culture = 9\<rparr>),
     (''Munich'', \<lparr>name = ''Munich'', country = ''Germany'', hotel = 100, food = 28,
        safety = 9, internet = 9, walkability = 8, nightlife = 6, culture = 8\<rparr>)]"

definition CITIES :: "string \<rightharpoonup> City" where
  "CITIES = map_of CITIES_items"

definition ROUTES_items :: "(string \<times> string list) list" where
  "ROUTES_items =
    [(''Balkan Core'', [''Sofia'', ''Belgrade'', ''Budapest'']),
     (''Central Europe'', [''Munich'', ''Vienna'', ''Prague'', ''Budapest'']),
     (''Grand Explorer'',
        [''Sofia'', ''Belgrade'', ''Budapest'', ''Vienna'', ''Prague'', ''Munich''])]"

definition ROUTES :: "string \<rightharpoonup> string list" where
  "ROUTES = map_of ROUTES_items"

definition DISTANCE_PER_SEGMENT :: int where
  "DISTANCE_PER_SEGMENT = 300"

subsection \<open>Decision engines\<close>

definition options :: "Transport list" where
  "options = [Car, Train, Plane, Bus]"

text \<open>The body of the \<open>for t in options\<close> loop: the four guarded updates of \<open>score\<close>.\<close>

definition score_of :: "TravelerProfile \<Rightarrow> rat \<Rightarrow> Transport \<Rightarrow> rat" where
  "score_of profile km t =
     (let s0 = 0;
          s1 = (if ''Low cost'' \<in> set (priorities profile) then s0 - cost t km / 100 else s0);
          s2 = (if ''Comfort'' \<in> set (priorities profile)
                then s1 + of_int (comfort t * 2) else s1);
          s3 = (if ''Eco'' \<in> set (priorities profile) then s2 + of_int (eco t * 2) else s2);
          s4 = (if ''Fast'' \<in> set (priorities profile)
                then s3 + of_int (speed t) / 100 else s3)
      in s4)"

definition scored :: "TravelerProfile \<Rightarrow> rat \<Rightarrow> (rat \<times> Transport) list" where
  "scored profile km = map (\<lambda>t. (score_of profile km t, t)) options"

text \<open>
  \<open>list.sort(reverse=True, key=k)\<close>: a stable sort; with \<open>reverse=True\<close> the list is
  reversed, sorted in ascending order of the key and reversed again, so that elements with
  equal keys keep their original order.
\<close>

definition py_sort_reverse :: "('a \<Rightarrow> 'k::linorder) \<Rightarrow> 'a list \<Rightarrow> 'a list" where
  "py_sort_reverse k xs = rev (sort_key k (rev xs))"

definition recommend_transport :: "TravelerProfile \<Rightarrow> rat \<Rightarrow> py_error + Transport" where
  "recommend_transport profile km =
     (case py_sort_reverse fst (scored profile km) of
        [] \<Rightarrow> Inl IndexError
      | x # _ \<Rightarrow> Inr (snd x))"

definition budget_risk :: "rat \<Rightarrow> rat \<Rightarrow> py_error + string" where
  "budget_risk total' budget' =
     (if budget' = 0 then Inl ZeroDivisionError
      else let ratio = total' / budget'
           in if ratio < 0.85 then Inr ''LOW''
              else if ratio \<le> 1.0 then Inr ''MEDIUM''
              else Inr ''HIGH'')"

subsection \<open>The script body\<close>

text \<open>The \<open>for c in cities\<close> loop with its two accumulators; \<open>CITIES[c]\<close> may raise.\<close>

fun city_loop :: "string list \<Rightarrow> int \<Rightarrow> int \<times> int \<Rightarrow> py_error + (int \<times> int)" where
  "city_loop [] days_city (hotel_total, food_total) = Inr (hotel_total, food_total)"
| "city_loop (c # cs) days_city (hotel_total, food_total) =
     (case CITIES c of
        None \<Rightarrow> Inl KeyError
      | Some city \<Rightarrow>
          city_loop cs days_city
            (hotel_total + hotel city * days_city, food_total + food city * days_city))"

text \<open>
  \<open>max(iterable, key=k)\<close>: the first item is the running maximum, a later item replaces it
  only when its key is strictly greater; an empty iterable raises ValueError.
\<close>

fun max_loop ::
  "('a \<Rightarrow> py_error + 'k::linorder) \<Rightarrow> 'a list \<Rightarrow> 'a \<Rightarrow> 'k \<Rightarrow> py_error + 'a" where
  "max_loop k [] m mk = Inr m"
| "max_loop k (y # ys) m mk =
     (case k y of
        Inl e \<Rightarrow> Inl e
      | Inr ky \<Rightarrow> if mk < ky then max_loop k ys y ky else max_loop k ys m mk)"

definition py_max_key :: "('a \<Rightarrow> py_error + 'k::linorder) \<Rightarrow> 'a list \<Rightarrow> py_error + 'a" where
  "py_max_key k xs =
     (case xs of
        [] \<Rightarrow> Inl ValueError
      | x # ys \<Rightarrow> (case k x of Inl e \<Rightarrow> Inl e | Inr kx \<Rightarrow> max_loop k ys x kx))"

text \<open>The key functions \<open>lambda x: CITIES[x].nightlife\<close> and \<open>lambda x: CITIES[x].culture\<close>.\<close>

definition city_key :: "(City \<Rightarrow> int) \<Rightarrow> string \<Rightarrow> py_error + int" where
  "city_key attr x = (case CITIES x of None \<Rightarrow> Inl KeyError | Some c \<Rightarrow> Inr (attr c))"

text \<open>An insight that is computed only when its priority is selected.\<close>

definition insight ::
  "string \<Rightarrow> (City \<Rightarrow> int) \<Rightarrow> string list \<Rightarrow> string list \<Rightarrow> py_error + string option" where
  "insight label attr priorities' cities =
     (if label \<in> set priorities' then
        (case py_max_key (city_key attr) cities of
           Inl e \<Rightarrow> Inl e
         | Inr top' \<Rightarrow> Inr (Some top'))
      else Inr None)"

record Output =
  km_total :: int
  transport :: Transport
  hotel_total :: int
  food_total :: int
  transport_cost :: rat
  transport_time :: rat
  total_cost :: rat
  risk :: string
  nightlife_top :: "string option"
  culture_top :: "string option"
  eco_conflict :: bool

text \<open>
  Everything the script computes after \<open>cities = ROUTES[route_name]\<close>, in source order.
  The profile is built from the widgets: \<open>TravelerProfile(budget, "normal", priorities)\<close>.
  The widgets bound the budget to 500..20000 and the days per city to 1..7; the model takes
  any integers, and a zero budget is the ZeroDivisionError of \<open>budget_risk\<close>.
  Rendering (metrics, cards, messages) is left out; the record holds the displayed values.
\<close>

definition app_body :: "string list \<Rightarrow> int \<Rightarrow> int \<Rightarrow> string list \<Rightarrow> py_error + Output" where
  "app_body cities budget' days_city priorities' =
     (let profile = \<lparr>budget = budget', pace = ''normal'', priorities = priorities'\<rparr>;
          segments = int (length cities) - 1;
          km = segments * DISTANCE_PER_SEGMENT
      in case recommend_transport profile (of_int km) of
           Inl e \<Rightarrow> Inl e
         | Inr tr \<Rightarrow>
       (case city_loop cities days_city (0, 0) of
           Inl e \<Rightarrow> Inl e
         | Inr (h, f) \<Rightarrow>
       (let tc = cost tr (of_int km)
        in case time tr (of_int km) of
           Inl e \<Rightarrow> Inl e
         | Inr tt \<Rightarrow>
       (let total' = of_int h + of_int f + tc
        in case budget_risk total' (of_int budget') of
           Inl e \<Rightarrow> Inl e
         | Inr rk \<Rightarrow>
       (case insight ''Nightlife'' nightlife priorities' cities of
           Inl e \<Rightarrow> Inl e
         | Inr nt \<Rightarrow>
       (case insight ''Culture'' culture priorities' cities of
           Inl e \<Rightarrow> Inl e
         | Inr ct \<Rightarrow>
           Inr \<lparr>km_total = km, transport = tr, hotel_total = h, food_total = f,
                transport_cost = tc, transport_time = tt, total_cost = total', risk = rk,
                nightlife_top = nt, culture_top = ct,
                eco_conflict = (eco tr < 5 \<and> ''Eco'' \<in> set priorities')\<rparr>))))))"

definition app :: "string \<Rightarrow> int \<Rightarrow> int \<Rightarrow> string list \<Rightarrow> py_error + Output" where
  "app route_name budget' days_city priorities' =
     (case ROUTES route_name of
        None \<Rightarrow> Inl KeyError
      | Some cities \<Rightarrow> app_body cities budget' days_city priorities')"

subsection \<open>The specification's wording of the derived values\<close>

text \<open>
  The city score as the specification words it: the arithmetic mean of the four ratings
  safety, internet, walkability and culture, rounded to 2 decimals.
\<close>

definition spec_mean :: "int list \<Rightarrow> rat" where
  "spec_mean xs = of_int (sum_list xs) / of_nat (length xs)"

definition spec_city_score :: "City \<Rightarrow> rat" where
  "spec_city_score c = py_round2 (spec_mean [safety c, internet c, walkability c, culture c])"

section \<open>Auxiliary facts\<close>

lemmas catalog_defs = CITIES_def CITIES_items_def ROUTES_def ROUTES_items_def

lemmas engine_defs = recommend_transport_def py_sort_reverse_def scored_def options_def
  score_of_def cost_def time_def Car_def Train_def Plane_def Bus_def budget_risk_def

lemmas body_defs = app_def app_body_def insight_def py_max_key_def city_key_def
  DISTANCE_PER_SEGMENT_def

subsection \<open>The stable descending sort puts the first best element in front\<close>

lemma last_filter_keep: "xs \<noteq> [] \<Longrightarrow> P (last xs) \<Longrightarrow> last (filter P xs) = last xs"
  by (induction xs) (auto simp: filter_empty_conv split: if_splits)

lemma find_via_filter: "List.find P xs = (case filter P xs of [] \<Rightarrow> None | x # _ \<Rightarrow> Some x)"
  by (induction xs) auto

lemma py_sort_reverse_Cons:
  fixes k :: "'a \<Rightarrow> 'k::linorder"
  assumes "xs \<noteq> []"
  shows "\<exists>r rest. py_sort_reverse k xs = r # rest \<and>
           List.find (\<lambda>x. \<forall>y\<in>set xs. k y \<le> k x) xs = Some r"
proof -
  define S where "S = sort_key k (rev xs)"
  have ne: "S \<noteq> []" using assms by (auto simp: S_def dest: arg_cong[where f=length])
  define r where "r = last S"
  have psr: "py_sort_reverse k xs = r # rev (butlast S)"
    unfolding py_sort_reverse_def S_def[symmetric] r_def
    using ne by (cases S rule: rev_cases) auto
  have set_S: "set S = set xs" by (simp add: S_def)
  have r_in: "r \<in> set xs" using ne set_S r_def last_in_set by blast
  have sorted_S: "sorted (map k S)" by (simp add: S_def)
  have r_max: "k y \<le> k r" if "y \<in> set xs" for y
  proof -
    from that set_S have "y \<in> set S" by simp
    then obtain j where j: "j < length S" "S ! j = y"
      unfolding in_set_conv_nth by blast
    have "map k S ! j \<le> map k S ! (length S - 1)"
      using sorted_S j by (intro sorted_nth_mono) auto
    then show ?thesis using j ne by (simp add: r_def last_conv_nth)
  qed
  let ?P = "\<lambda>y. k y = k r"
  have "filter ?P S = filter ?P (rev xs)"
    unfolding S_def by (rule sort_key_stable)
  moreover have "last (filter ?P S) = r"
    using last_filter_keep[of S ?P] ne by (simp add: r_def)
  ultimately have "last (rev (filter ?P xs)) = r" by (simp add: rev_filter)
  moreover have fne: "filter ?P xs \<noteq> []" using r_in by (auto simp: filter_empty_conv)
  ultimately have hd_r: "hd (filter ?P xs) = r" by (simp add: last_rev)
  have "filter (\<lambda>x. \<forall>y\<in>set xs. k y \<le> k x) xs = filter ?P xs"
  proof (rule filter_cong[OF refl])
    fix x assume "x \<in> set xs"
    then show "(\<forall>y\<in>set xs. k y \<le> k x) = (k x = k r)"
      using r_max r_in by (auto intro: antisym)
  qed
  then have "List.find (\<lambda>x. \<forall>y\<in>set xs. k y \<le> k x) xs = Some r"
    using fne hd_r by (auto simp: find_via_filter split: list.splits)
  with psr show ?thesis by blast
qed

subsection \<open>The recommended mode\<close>

lemma scored_nth:
  "i < length options \<Longrightarrow> scored p km ! i = (score_of p km (options ! i), options ! i)"
  by (simp add: scored_def)

lemma recommend_transport_char:
  "\<exists>i<length options.
     recommend_transport p km = Inr (options ! i) \<and>
     (\<forall>j<length options. score_of p km (options ! j) \<le> score_of p km (options ! i)) \<and>
     (\<forall>j<i. score_of p km (options ! j) < score_of p km (options ! i))"
proof -
  let ?xs = "scored p km"
  let ?Q = "\<lambda>x. \<forall>y\<in>set ?xs. fst y \<le> fst x"
  have len: "length ?xs = length options" by (simp add: scored_def)
  have "?xs \<noteq> []" by (simp add: scored_def options_def)
  from py_sort_reverse_Cons[OF this, of fst]
  obtain r rest where srt: "py_sort_reverse fst ?xs = r # rest" and fnd: "List.find ?Q ?xs = Some r"
    by blast
  from fnd obtain i where i: "i < length ?xs" "?Q (?xs ! i)" "r = ?xs ! i"
    and before: "\<forall>j<i. \<not> ?Q (?xs ! j)"
    unfolding find_Some_iff by blast
  have i': "i < length options" using i(1) len by simp
  have res: "recommend_transport p km = Inr (options ! i)"
    using srt i(3) i' by (simp add: recommend_transport_def scored_nth)
  have best: "score_of p km (options ! j) \<le> score_of p km (options ! i)"
    if "j < length options" for j
  proof -
    have "?xs ! j \<in> set ?xs" using that len by (simp del: scored_nth)
    with i(2) have "fst (?xs ! j) \<le> fst (?xs ! i)" by blast
    then show ?thesis using that i' by (simp add: scored_nth)
  qed
  have first: "score_of p km (options ! j) < score_of p km (options ! i)" if "j < i" for j
  proof -
    from before that have "\<not> ?Q (?xs ! j)" by blast
    then obtain y where y: "y \<in> set ?xs" "\<not> fst y \<le> fst (?xs ! j)" by blast
    from y(1) i(2) have "fst y \<le> fst (?xs ! i)" by blast
    with y(2) have "fst (?xs ! j) < fst (?xs ! i)" by simp
    then show ?thesis using that i' by (simp add: scored_nth)
  qed
  from i' res best first show ?thesis by blast
qed

lemma recommend_transport_total:
  "\<exists>t. recommend_transport p km = Inr t \<and> t \<in> set options \<and>
       (\<forall>u\<in>set options. score_of p km u \<le> score_of p km t)"
proof -
  from recommend_transport_char[of p km] obtain i where
    i: "i < length options" "recommend_transport p km = Inr (options ! i)"
       "\<forall>j<length options. score_of p km (options ! j) \<le> score_of p km (options ! i)"
    by blast
  have "score_of p km u \<le> score_of p km (options ! i)" if "u \<in> set options" for u
    using that i(3) unfolding in_set_conv_nth by blast
  with i(1,2) show ?thesis by (metis nth_mem)
qed

lemma score_of_Nil: "priorities p = [] \<Longrightarrow> score_of p km t = 0"
  by (simp add: score_of_def)

lemma distinct_options: "distinct options"
  by (simp add: options_def Car_def Train_def Plane_def Bus_def)

lemma score_Plane_less_Train:
  assumes "''Eco'' \<in> set (priorities p)" and "0 \<le> km"
  shows "score_of p km Plane < score_of p km Train"
  using assms by (simp add: score_of_def cost_def Plane_def Train_def Let_def)

lemma eco_recommendation:
  assumes "''Eco'' \<in> set (priorities p)" and "0 \<le> km"
  shows "\<exists>t. recommend_transport p km = Inr t \<and> t \<noteq> Plane \<and> 5 \<le> eco t"
proof -
  obtain t where t: "recommend_transport p km = Inr t" "t \<in> set options"
    and best: "\<forall>u\<in>set options. score_of p km u \<le> score_of p km t"
    using recommend_transport_total[of p km] by blast
  have "Train \<in> set options" by (simp add: options_def)
  with best have "score_of p km Train \<le> score_of p km t" by blast
  with score_Plane_less_Train[OF assms] have "score_of p km Plane < score_of p km t" by simp
  then have "t \<noteq> Plane" by auto
  with t(2) have "t = Car \<or> t = Train \<or> t = Bus" by (auto simp: options_def)
  then have "5 \<le> eco t" by (auto simp: Car_def Train_def Bus_def)
  with t(1) \<open>t \<noteq> Plane\<close> show ?thesis by blast
qed

subsection \<open>The maximum with a key keeps the first best item\<close>

lemma max_loop_first_max:
  fixes g :: "'a \<Rightarrow> 'k::linorder"
  assumes "\<forall>y\<in>set ys. k y = Inr (g y)"
  shows "\<exists>r pre post. max_loop k ys m (g m) = Inr r \<and> m # ys = pre @ r # post \<and>
           (\<forall>y\<in>set pre. g y < g r) \<and> (\<forall>y\<in>set post. g y \<le> g r)"
  using assms
proof (induction ys arbitrary: m)
  case Nil
  have "max_loop k [] m (g m) = Inr m \<and> m # [] = [] @ m # [] \<and>
        (\<forall>y\<in>set []. g y < g m) \<and> (\<forall>y\<in>set []. g y \<le> g m)"
    by simp
  then show ?case by blast
next
  case (Cons y ys)
  have ky: "k y = Inr (g y)" and rest: "\<forall>z\<in>set ys. k z = Inr (g z)"
    using Cons.prems by simp_all
  show ?case
  proof (cases "g m < g y")
    case True
    from Cons.IH[OF rest, of y] obtain r pre post where
      r: "max_loop k ys y (g y) = Inr r" "y # ys = pre @ r # post"
         "\<forall>z\<in>set pre. g z < g r" "\<forall>z\<in>set post. g z \<le> g r"
      by blast
    have "y \<in> set (pre @ r # post)" using r(2) by (metis list.set_intros(1))
    then have "g y \<le> g r" using r(3,4) by auto
    with True have "g m < g r" by simp
    then have "\<forall>z\<in>set (m # pre). g z < g r" using r(3) by simp
    moreover have "m # y # ys = (m # pre) @ r # post" using r(2) by simp
    moreover have "max_loop k (y # ys) m (g m) = Inr r" using True ky r(1) by simp
    ultimately show ?thesis using r(4) by blast
  next
    case False
    from Cons.IH[OF rest, of m] obtain r pre post where
      r: "max_loop k ys m (g m) = Inr r" "m # ys = pre @ r # post"
         "\<forall>z\<in>set pre. g z < g r" "\<forall>z\<in>set post. g z \<le> g r"
      by blast
    have res: "max_loop k (y # ys) m (g m) = Inr r" using False ky r(1) by simp
    show ?thesis
    proof (cases pre)
      case Nil
      with r(2) have "r = m" "post = ys" by simp_all
      then have "m # y # ys = [] @ r # (y # ys)" "\<forall>z\<in>set (y # ys). g z \<le> g r"
        using False r(4) by auto
      with res show ?thesis by (metis empty_iff empty_set)
    next
      case (Cons a pre')
      with r(2) have a: "a = m" "ys = pre' @ r # post" by simp_all
      have "g m < g r" using r(3) Cons a(1) by simp
      with False have "g y < g r" by simp
      then have "\<forall>z\<in>set (m # y # pre'). g z < g r" using r(3) Cons a(1) by simp
      moreover have "m # y # ys = (m # y # pre') @ r # post" using a(2) by simp
      ultimately show ?thesis using res r(4) by blast
    qed
  qed
qed

lemma resolved_nth:
  assumes "map CITIES cities = map Some cs" and "j < length cities"
  shows "CITIES (cities ! j) = Some (cs ! j)"
proof -
  have "length cs = length cities" using assms(1) by (metis length_map)
  then have "map CITIES cities ! j = map Some cs ! j" "j < length cs"
    using assms by simp_all
  then show ?thesis using assms(2) by simp
qed

lemma py_max_key_first_max:
  assumes res: "map CITIES cities = map Some cs" and ne: "cities \<noteq> []"
  shows "\<exists>i<length cities.
           py_max_key (city_key attr) cities = Inr (cities ! i) \<and>
           (\<forall>j<length cities. attr (cs ! j) \<le> attr (cs ! i)) \<and>
           (\<forall>j<i. attr (cs ! j) < attr (cs ! i))"
proof -
  define g where "g x = attr (the (CITIES x))" for x
  have key: "city_key attr x = Inr (g x)" if "x \<in> set cities" for x
  proof -
    from that obtain j where "j < length cities" "cities ! j = x"
      unfolding in_set_conv_nth by blast
    with resolved_nth[OF res] have "CITIES x = Some (cs ! j)" by blast
    then show ?thesis by (simp add: city_key_def g_def)
  qed
  have g_nth: "g (cities ! j) = attr (cs ! j)" if "j < length cities" for j
    using resolved_nth[OF res that] by (simp add: g_def)
  from ne obtain m ys where cities: "cities = m # ys" by (cases cities) auto
  have "\<forall>y\<in>set ys. city_key attr y = Inr (g y)" using key cities by simp
  from max_loop_first_max[OF this, of m] obtain r pre post where
    r: "max_loop (city_key attr) ys m (g m) = Inr r" "m # ys = pre @ r # post"
       "\<forall>y\<in>set pre. g y < g r" "\<forall>y\<in>set post. g y \<le> g r"
    by blast
  define i where "i = length pre"
  have i_lt: "i < length cities" using r(2) cities by (simp add: i_def)
  have ri: "cities ! i = r" using r(2) cities by (simp add: i_def)
  have pmk: "py_max_key (city_key attr) cities = Inr (cities ! i)"
    using r(1) key[of m] cities ri by (simp add: py_max_key_def)
  have before: "attr (cs ! j) < attr (cs ! i)" if "j < i" for j
  proof -
    have "cities ! j = pre ! j" using that r(2) cities by (simp add: i_def nth_append)
    then have "cities ! j \<in> set pre" using that by (simp add: i_def)
    with r(3) have "g (cities ! j) < g (cities ! i)" using ri by simp
    moreover have "j < length cities" using that i_lt by simp
    ultimately show ?thesis using g_nth[of j] g_nth[OF i_lt] by simp
  qed
  have best: "attr (cs ! j) \<le> attr (cs ! i)" if "j < length cities" for j
  proof -
    have "cities ! j \<in> set (pre @ r # post)" using that r(2) cities by (metis nth_mem)
    then have "g (cities ! j) \<le> g r" using r(3,4) by auto
    then have "g (cities ! j) \<le> g (cities ! i)" using ri by simp
    then show ?thesis using g_nth[OF that] g_nth[OF i_lt] by simp
  qed
  from i_lt pmk best before show ?thesis by blast
qed

lemma insight_unselected: "label \<notin> set pr \<Longrightarrow> insight label attr pr cities = Inr None"
  by (simp add: insight_def)

lemma insight_selected:
  assumes "label \<in> set pr" and "map CITIES cities = map Some cs" and "cities \<noteq> []"
  shows "\<exists>i<length cities.
           insight label attr pr cities = Inr (Some (cities ! i)) \<and>
           (\<forall>j<length cities. attr (cs ! j) \<le> attr (cs ! i)) \<and>
           (\<forall>j<i. attr (cs ! j) < attr (cs ! i))"
proof -
  from py_max_key_first_max[OF assms(2,3), of attr] obtain i where
    "i < length cities" "py_max_key (city_key attr) cities = Inr (cities ! i)"
    "\<forall>j<length cities. attr (cs ! j) \<le> attr (cs ! i)" "\<forall>j<i. attr (cs ! j) < attr (cs ! i)"
    by blast
  then show ?thesis using assms(1) by (auto simp: insight_def)
qed

lemma insight_total:
  assumes "map CITIES cities = map Some cs" and "cities \<noteq> []"
  shows "\<exists>x. insight label attr pr cities = Inr x"
  using insight_selected[OF _ assms, of label pr attr] insight_unselected[of label pr attr cities]
  by (cases "label \<in> set pr") auto

subsection \<open>The cost loop and the script body\<close>

lemma city_loop_resolved:
  "map CITIES cities = map Some cs \<Longrightarrow>
   city_loop cities d (h, f) =
     Inr (h + (\<Sum>c\<leftarrow>cs. hotel c * d), f + (\<Sum>c\<leftarrow>cs. food c * d))"
proof (induction cities arbitrary: cs h f)
  case Nil
  then show ?case by simp
next
  case (Cons a cities)
  then obtain c cs' where cs: "cs = c # cs'" "CITIES a = Some c" "map CITIES cities = map Some cs'"
    by (cases cs) auto
  show ?case using Cons.IH[OF cs(3)] cs(1,2) by (simp add: add.assoc)
qed

lemma city_loop_Inr_resolved:
  "city_loop cities d (h, f) = Inr r \<Longrightarrow> \<exists>cs. map CITIES cities = map Some cs"
proof (induction cities arbitrary: h f)
  case Nil
  then show ?case by simp
next
  case (Cons a cities)
  then obtain c where c: "CITIES a = Some c" by (cases "CITIES a") auto
  with Cons.prems Cons.IH obtain cs where "map CITIES cities = map Some cs"
    by fastforce
  with c have "map CITIES (a # cities) = map Some (c # cs)" by simp
  then show ?case by blast
qed

lemma sum_list_double:
  fixes w :: "'a \<Rightarrow> int"
  shows "(\<Sum>c\<leftarrow>cs. w c * (2 * d)) = 2 * (\<Sum>c\<leftarrow>cs. w c * d)"
  by (induction cs) (simp_all add: algebra_simps)

lemma time_options: "t \<in> set options \<Longrightarrow> time t km = Inr (km / of_int (speed t))"
  by (auto simp: options_def time_def Car_def Train_def Plane_def Bus_def)

lemma budget_risk_Inr_iff: "(\<exists>rk. budget_risk t b = Inr rk) \<longleftrightarrow> b \<noteq> 0"
  by (simp add: budget_risk_def Let_def)

lemma app_body_unfold:
  assumes "recommend_transport \<lparr>budget = b, pace = ''normal'', priorities = pr\<rparr>
             (of_int ((int (length cities) - 1) * 300)) = Inr tr"
    and "city_loop cities d (0, 0) = Inr (h, f)"
    and "time tr (of_int ((int (length cities) - 1) * 300)) = Inr tt"
    and "budget_risk (of_int h + of_int f + cost tr (of_int ((int (length cities) - 1) * 300)))
           (of_int b) = Inr rk"
    and "insight ''Nightlife'' nightlife pr cities = Inr nt"
    and "insight ''Culture'' culture pr cities = Inr ct"
  shows "app_body cities b d pr =
           Inr \<lparr>km_total = (int (length cities) - 1) * 300, transport = tr,
                hotel_total = h, food_total = f,
                transport_cost = cost tr (of_int ((int (length cities) - 1) * 300)),
                transport_time = tt,
                total_cost = of_int h + of_int f
                             + cost tr (of_int ((int (length cities) - 1) * 300)),
                risk = rk, nightlife_top = nt, culture_top = ct,
                eco_conflict = (eco tr < 5 \<and> ''Eco'' \<in> set pr)\<rparr>"
  using assms unfolding app_body_def Let_def DISTANCE_PER_SEGMENT_def by simp

lemma app_body_InrE:
  assumes "app_body cities b d pr = Inr out"
  obtains tr h f tt rk nt ct where
    "recommend_transport \<lparr>budget = b, pace = ''normal'', priorities = pr\<rparr>
             (of_int ((int (length cities) - 1) * 300)) = Inr tr"
    "city_loop cities d (0, 0) = Inr (h, f)"
    "time tr (of_int ((int (length cities) - 1) * 300)) = Inr tt"
    "budget_risk (of_int h + of_int f + cost tr (of_int ((int (length cities) - 1) * 300)))
           (of_int b) = Inr rk"
    "insight ''Nightlife'' nightlife pr cities = Inr nt"
    "insight ''Culture'' culture pr cities = Inr ct"
    "out = \<lparr>km_total = (int (length cities) - 1) * 300, transport = tr,
                hotel_total = h, food_total = f,
                transport_cost = cost tr (of_int ((int (length cities) - 1) * 300)),
                transport_time = tt,
                total_cost = of_int h + of_int f
                             + cost tr (of_int ((int (length cities) - 1) * 300)),
                risk = rk, nightlife_top = nt, culture_top = ct,
                eco_conflict = (eco tr < 5 \<and> ''Eco'' \<in> set pr)\<rparr>"
  using assms unfolding app_body_def Let_def DISTANCE_PER_SEGMENT_def
  by (auto split: sum.splits prod.splits)

lemma app_body_resolved:
  assumes res: "map CITIES cities = map Some cs" and ne: "cities \<noteq> []" and b: "b \<noteq> 0"
  obtains tr rk nt ct where
    "recommend_transport \<lparr>budget = b, pace = ''normal'', priorities = pr\<rparr>
             (of_int ((int (length cities) - 1) * 300)) = Inr tr"
    "tr \<in> set options"
    "insight ''Nightlife'' nightlife pr cities = Inr nt"
    "insight ''Culture'' culture pr cities = Inr ct"
    "app_body cities b d pr =
           Inr \<lparr>km_total = (int (length cities) - 1) * 300, transport = tr,
                hotel_total = (\<Sum>c\<leftarrow>cs. hotel c * d), food_total = (\<Sum>c\<leftarrow>cs. food c * d),
                transport_cost = cost tr (of_int ((int (length cities) - 1) * 300)),
                transport_time = of_int ((int (length cities) - 1) * 300) / of_int (speed tr),
                total_cost = of_int (\<Sum>c\<leftarrow>cs. hotel c * d) + of_int (\<Sum>c\<leftarrow>cs. food c * d)
                             + cost tr (of_int ((int (length cities) - 1) * 300)),
                risk = rk, nightlife_top = nt, culture_top = ct,
                eco_conflict = (eco tr < 5 \<and> ''Eco'' \<in> set pr)\<rparr>"
proof -
  let ?km = "(int (length cities) - 1) * 300"
  let ?p = "\<lparr>budget = b, pace = ''normal'', priorities = pr\<rparr>"
  obtain tr where tr: "recommend_transport ?p (of_int ?km) = Inr tr" "tr \<in> set options"
    using recommend_transport_total[of ?p "of_int ?km"] by blast
  have cl: "city_loop cities d (0, 0) = Inr ((\<Sum>c\<leftarrow>cs. hotel c * d), (\<Sum>c\<leftarrow>cs. food c * d))"
    using city_loop_resolved[OF res, of d 0 0] by simp
  have tm: "time tr (of_int ?km) = Inr (of_int ?km / of_int (speed tr))"
    by (rule time_options[OF tr(2)])
  have "of_int b \<noteq> (0::rat)" using b by simp
  then obtain rk where rk:
    "budget_risk (of_int (\<Sum>c\<leftarrow>cs. hotel c * d) + of_int (\<Sum>c\<leftarrow>cs. food c * d)
        + cost tr (of_int ?km)) (of_int b) = Inr rk"
    using budget_risk_Inr_iff by blast
  obtain nt where nt: "insight ''Nightlife'' nightlife pr cities = Inr nt"
    using insight_total[OF res ne] by blast
  obtain ct where ct: "insight ''Culture'' culture pr cities = Inr ct"
    using insight_total[OF res ne] by blast
  show ?thesis
    by (rule that[OF tr nt ct]) (rule app_body_unfold[OF tr(1) cl tm rk nt ct])
qed

lemma catalog_route:
  assumes "ROUTES rn = Some cities"
  shows "cities \<noteq> []" and "\<exists>cs. map CITIES cities = map Some cs"
proof -
  from assms have "(rn, cities) \<in> set ROUTES_items"
    unfolding ROUTES_def by (rule map_of_SomeD)
  then have c: "cities = [''Sofia'', ''Belgrade'', ''Budapest''] \<or>
       cities = [''Munich'', ''Vienna'', ''Prague'', ''Budapest''] \<or>
       cities = [''Sofia'', ''Belgrade'', ''Budapest'', ''Vienna'', ''Prague'', ''Munich'']"
    by (auto simp: ROUTES_items_def)
  then show "cities \<noteq> []" by auto
  have "map CITIES cities = map Some (map (the \<circ> CITIES) cities)"
    using c by (auto simp: CITIES_def CITIES_items_def)
  then show "\<exists>cs. map CITIES cities = map Some cs" by blast
qed

subsection \<open>Rounding to two decimals\<close>

lemma py_round2_quarter: "py_round2 (of_int s / 4) = of_int s / 4"
proof -
  have "(of_int s / 4 * 100 :: rat) = of_int (25 * s)" by simp
  then show ?thesis by (simp add: py_round2_def Let_def del: of_int_mult)
qed

lemma py_round2_nearest:
  "\<exists>n::int. py_round2 x = of_int n / 100 \<and> \<bar>py_round2 x - x\<bar> \<le> 1 / 200"
proof -
  define y where "y = x * 100"
  define f where "f = \<lfloor>y\<rfloor>"
  define n where "n = (if y - of_int f < 1 / 2 then f
                      else if 1 / 2 < y - of_int f then f + 1
                      else if even f then f else f + 1)"
  have pr: "py_round2 x = of_int n / 100"
    by (simp add: py_round2_def Let_def n_def f_def y_def)
  have "of_int f \<le> y" "y < of_int f + 1" unfolding f_def by linarith+
  then have "\<bar>of_int n - y\<bar> \<le> 1 / 2" by (auto simp: n_def)
  moreover have "of_int n / 100 - x = (of_int n - y) / 100" by (simp add: y_def field_simps)
  then have "\<bar>of_int n / 100 - x\<bar> = \<bar>(of_int n - y) / 100\<bar>" by (rule arg_cong)
  then have "\<bar>of_int n / 100 - x\<bar> = \<bar>of_int n - y\<bar> / 100" by (simp only: abs_divide)
  ultimately have "\<bar>of_int n / 100 - x\<bar> \<le> 1 / 200" by simp
  then have "\<bar>py_round2 x - x\<bar> \<le> 1 / 200" by (simp only: pr)
  with pr show ?thesis by blast
qed

section \<open>Cost aggregation\<close>

text \<open>
  Claim C4. For a non-empty route whose city names \<open>cities\<close> all resolve in the catalog (to the
  records \<open>cs\<close>), any days per city \<open>d\<close> and a non-zero budget, the script body runs to the end
  and computes: distance = (n - 1) times the segment length, which is fixed at 300; the hotel
  total as the sum of hotel price times \<open>d\<close> over the cities; the food total likewise; the
  transport cost as distance times the price per km of the recommended mode; the transport
  time as distance divided by that mode's speed; and the grand total as hotel total plus food
  total plus transport cost.
\<close>

theorem app_body_cost_aggregation:
  assumes "map CITIES cities = map Some cs" and "cities \<noteq> []" and "budget' \<noteq> 0"
  shows "\<exists>out.
           app_body cities budget' d pr = Inr out \<and>
           DISTANCE_PER_SEGMENT = 300 \<and>
           km_total out = (int (length cities) - 1) * DISTANCE_PER_SEGMENT \<and>
           hotel_total out = (\<Sum>c\<leftarrow>cs. hotel c * d) \<and>
           food_total out = (\<Sum>c\<leftarrow>cs. food c * d) \<and>
           recommend_transport \<lparr>budget = budget', pace = ''normal'', priorities = pr\<rparr>
             (of_int (km_total out)) = Inr (transport out) \<and>
           transport_cost out = of_int (km_total out) * price_km (transport out) \<and>
           transport_time out = of_int (km_total out) / of_int (speed (transport out)) \<and>
           total_cost out
             = of_int (hotel_total out) + of_int (food_total out) + transport_cost out"
proof -
  from assms obtain tr rk nt ct where
    "recommend_transport \<lparr>budget = budget', pace = ''normal'', priorities = pr\<rparr>
             (of_int ((int (length cities) - 1) * 300)) = Inr tr"
    "app_body cities budget' d pr =
           Inr \<lparr>km_total = (int (length cities) - 1) * 300, transport = tr,
                hotel_total = (\<Sum>c\<leftarrow>cs. hotel c * d), food_total = (\<Sum>c\<leftarrow>cs. food c * d),
                transport_cost = cost tr (of_int ((int (length cities) - 1) * 300)),
                transport_time = of_int ((int (length cities) - 1) * 300) / of_int (speed tr),
                total_cost = of_int (\<Sum>c\<leftarrow>cs. hotel c * d) + of_int (\<Sum>c\<leftarrow>cs. food c * d)
                             + cost tr (of_int ((int (length cities) - 1) * 300)),
                risk = rk, nightlife_top = nt, culture_top = ct,
                eco_conflict = (eco tr < 5 \<and> ''Eco'' \<in> set pr)\<rparr>"
    by (rule app_body_resolved)
  then show ?thesis
    by (simp add: DISTANCE_PER_SEGMENT_def cost_def)
qed

theorem app_body_cost_aggregation_witness:
  "map CITIES [''Sofia'', ''Belgrade'', ''Budapest''] = map Some (map snd (take 3 CITIES_items)) \<and>
   [''Sofia'', ''Belgrade'', ''Budapest''] \<noteq> [] \<and> (3500::int) \<noteq> 0 \<and>
   (\<exists>out. app_body [''Sofia'', ''Belgrade'', ''Budapest''] 3500 3 [''Eco''] = Inr out \<and>
      km_total out = 600 \<and> hotel_total out = 630 \<and> food_total out = 195 \<and>
      transport out = Train \<and> transport_cost out = 108 \<and> transport_time out = 60 / 13 \<and>
      total_cost out = 933)"
proof -
  have r: "map CITIES [''Sofia'', ''Belgrade'', ''Budapest'']
             = map Some (map snd (take 3 CITIES_items))"
    by (simp add: catalog_defs)
  have rt: "recommend_transport \<lparr>budget = 3500, pace = ''normal'', priorities = [''Eco'']\<rparr> 600
              = Inr Train"
    by (simp add: engine_defs)
  from app_body_cost_aggregation[OF r, of 3500 3 "[''Eco'']"] obtain out where
    out: "app_body [''Sofia'', ''Belgrade'', ''Budapest''] 3500 3 [''Eco''] = Inr out"
      "km_total out = 600"
      "hotel_total out = (\<Sum>c\<leftarrow>map snd (take 3 CITIES_items). hotel c * 3)"
      "food_total out = (\<Sum>c\<leftarrow>map snd (take 3 CITIES_items). food c * 3)"
      "recommend_transport \<lparr>budget = 3500, pace = ''normal'', priorities = [''Eco'']\<rparr>
         (of_int (km_total out)) = Inr (transport out)"
      "transport_cost out = of_int (km_total out) * price_km (transport out)"
      "transport_time out = of_int (km_total out) / of_int (speed (transport out))"
      "total_cost out = of_int (hotel_total out) + of_int (food_total out) + transport_cost out"
    by (auto simp: DISTANCE_PER_SEGMENT_def)
  have tr: "transport out = Train" using out(5) rt by (simp add: out(2))
  have "hotel_total out = 630" "food_total out = 195"
    using out(3,4) by (simp_all add: CITIES_items_def)
  moreover have "transport_cost out = 108" "transport_time out = 60 / 13"
    using out(6,7) by (simp_all add: out(2) tr Train_def)
  ultimately have "total_cost out = 933" using out(8) by simp
  with out(1,2) tr \<open>hotel_total out = 630\<close> \<open>food_total out = 195\<close>
    \<open>transport_cost out = 108\<close> \<open>transport_time out = 60 / 13\<close> r
  show ?thesis by simp
qed

section \<open>City score\<close>

text \<open>
  Claim C5. The score of a city is the arithmetic mean of exactly the four ratings safety,
  internet, walkability and culture, rounded to 2 decimals: it agrees with the
  specification's wording, it is a multiple of 1/100, with integer ratings the rounding
  leaves the mean unchanged, and changing hotel, food or nightlife does not change it.
  The last conjunct lists the score of every city of the catalog.
\<close>

theorem city_score_mean:
  "score c = spec_city_score c \<and>
   score c = of_int (safety c + internet c + walkability c + culture c) / 4 \<and>
   (\<exists>n::int. score c = of_int n / 100) \<and>
   score (c\<lparr>hotel := h, food := f, nightlife := n\<rparr>) = score c \<and>
   map (\<lambda>(x, c). (x, score c)) CITIES_items =
     [(''Sofia'', 7.25), (''Belgrade'', 6.5), (''Budapest'', 7.75),
      (''Vienna'', 8.75), (''Prague'', 8.5), (''Munich'', 8.5)]"
proof -
  have a: "score c = of_int (safety c + internet c + walkability c + culture c) / 4" for c
    unfolding score_def by (rule py_round2_quarter)
  have b: "score c = spec_city_score c"
    by (simp add: score_def spec_city_score_def spec_mean_def add.assoc)
  have c: "\<exists>n::int. score c = of_int n / 100"
    unfolding score_def using py_round2_nearest by blast
  have d: "score (c\<lparr>hotel := h, food := f, nightlife := n\<rparr>) = score c"
    by (simp add: score_def)
  have e: "map (\<lambda>(x, c). (x, score c)) CITIES_items =
     [(''Sofia'', 7.25), (''Belgrade'', 6.5), (''Budapest'', 7.75),
      (''Vienna'', 8.75), (''Prague'', 8.5), (''Munich'', 8.5)]"
    by (simp add: a CITIES_items_def)
  from a b c d e show ?thesis by blast
qed

section \<open>Linearity in the days per city\<close>

text \<open>
  Claim C6. Whenever the script body succeeds for a route with \<open>d\<close> days per city, it also
  succeeds with \<open>2 * d\<close> days, the hotel total and the food total are exactly doubled, and the
  recommended mode and the transport cost are the same.
\<close>

theorem doubling_days:
  assumes "app_body cities budget' d pr = Inr out"
  shows "\<exists>out2.
           app_body cities budget' (2 * d) pr = Inr out2 \<and>
           hotel_total out2 = 2 * hotel_total out \<and>
           food_total out2 = 2 * food_total out \<and>
           transport out2 = transport out \<and>
           transport_cost out2 = transport_cost out"
proof -
  let ?km = "(int (length cities) - 1) * 300"
  from assms obtain tr h f tt rk nt ct where
    tr: "recommend_transport \<lparr>budget = budget', pace = ''normal'', priorities = pr\<rparr>
             (of_int ?km) = Inr tr"
    and cl: "city_loop cities d (0, 0) = Inr (h, f)"
    and tm: "time tr (of_int ?km) = Inr tt"
    and br: "budget_risk (of_int h + of_int f + cost tr (of_int ?km)) (of_int budget') = Inr rk"
    and nt: "insight ''Nightlife'' nightlife pr cities = Inr nt"
    and ct: "insight ''Culture'' culture pr cities = Inr ct"
    and out: "out = \<lparr>km_total = ?km, transport = tr, hotel_total = h, food_total = f,
                transport_cost = cost tr (of_int ?km), transport_time = tt,
                total_cost = of_int h + of_int f + cost tr (of_int ?km),
                risk = rk, nightlife_top = nt, culture_top = ct,
                eco_conflict = (eco tr < 5 \<and> ''Eco'' \<in> set pr)\<rparr>"
    by (rule app_body_InrE)
  from cl obtain cs where res: "map CITIES cities = map Some cs"
    using city_loop_Inr_resolved by blast
  have hf: "h = (\<Sum>c\<leftarrow>cs. hotel c * d)" "f = (\<Sum>c\<leftarrow>cs. food c * d)"
    using cl city_loop_resolved[OF res, of d 0 0] by simp_all
  have cl2: "city_loop cities (2 * d) (0, 0) = Inr (2 * h, 2 * f)"
    using city_loop_resolved[OF res, of "2 * d" 0 0] by (simp add: hf sum_list_double)
  have "(of_int budget' :: rat) \<noteq> 0" using br budget_risk_Inr_iff by blast
  then obtain rk2 where br2:
    "budget_risk (of_int (2 * h) + of_int (2 * f) + cost tr (of_int ?km)) (of_int budget')
       = Inr rk2"
    using budget_risk_Inr_iff by blast
  show ?thesis
    using app_body_unfold[OF tr cl2 tm br2 nt ct] by (simp add: out)
qed

theorem doubling_days_witness:
  "app_body [''Sofia'', ''Belgrade'', ''Budapest''] 3500 3 [''Eco'']
     = Inr \<lparr>km_total = 600, transport = Train, hotel_total = 630, food_total = 195,
           transport_cost = 108, transport_time = 60 / 13, total_cost = 933, risk = ''LOW'',
           nightlife_top = None, culture_top = None, eco_conflict = False\<rparr> \<and>
   app_body [''Sofia'', ''Belgrade'', ''Budapest''] 3500 (2 * 3) [''Eco'']
     = Inr \<lparr>km_total = 600, transport = Train, hotel_total = 1260, food_total = 390,
           transport_cost = 108, transport_time = 60 / 13, total_cost = 1758, risk = ''LOW'',
           nightlife_top = None, culture_top = None, eco_conflict = False\<rparr>"
proof -
  have a: "app_body [''Sofia'', ''Belgrade'', ''Budapest''] 3500 3 [''Eco'']
     = Inr \<lparr>km_total = 600, transport = Train, hotel_total = 630, food_total = 195,
           transport_cost = 108, transport_time = 60 / 13, total_cost = 933, risk = ''LOW'',
           nightlife_top = None, culture_top = None, eco_conflict = False\<rparr>"
    by (simp add: catalog_defs engine_defs body_defs)
  from doubling_days[OF a] obtain out2 where
    o2: "app_body [''Sofia'', ''Belgrade'', ''Budapest''] 3500 (2 * 3) [''Eco''] = Inr out2"
        "hotel_total out2 = 1260" "food_total out2 = 390" "transport out2 = Train"
        "transport_cost out2 = 108"
    by auto
  have "app_body [''Sofia'', ''Belgrade'', ''Budapest''] 3500 (2 * 3) [''Eco'']
     = Inr \<lparr>km_total = 600, transport = Train, hotel_total = 1260, food_total = 390,
           transport_cost = 108, transport_time = 60 / 13, total_cost = 1758, risk = ''LOW'',
           nightlife_top = None, culture_top = None, eco_conflict = False\<rparr>"
    by (simp add: catalog_defs engine_defs body_defs)
  with a o2 show ?thesis by simp
qed

section \<open>Insight rules\<close>

text \<open>
  Claim C7. For a non-empty route whose cities all resolve in the catalog and any priority
  list: when "Nightlife" is selected the script reports the city at the first index of the
  route whose nightlife rating is the maximum over the route (every earlier city is strictly
  lower), and nothing otherwise; the same holds for "Culture" and the culture rating; and
  the conflict flag is raised if and only if "Eco" is selected and the eco rating of the
  recommended mode is below 5.
\<close>

theorem insight_rules:
  assumes "map CITIES cities = map Some cs" and "cities \<noteq> []" and "budget' \<noteq> 0"
  shows "\<exists>out.
           app_body cities budget' d pr = Inr out \<and>
           (''Nightlife'' \<in> set pr \<longrightarrow>
              (\<exists>i<length cities.
                 nightlife_top out = Some (cities ! i) \<and>
                 (\<forall>j<length cities. nightlife (cs ! j) \<le> nightlife (cs ! i)) \<and>
                 (\<forall>j<i. nightlife (cs ! j) < nightlife (cs ! i)))) \<and>
           (''Nightlife'' \<notin> set pr \<longrightarrow> nightlife_top out = None) \<and>
           (''Culture'' \<in> set pr \<longrightarrow>
              (\<exists>i<length cities.
                 culture_top out = Some (cities ! i) \<and>
                 (\<forall>j<length cities. culture (cs ! j) \<le> culture (cs ! i)) \<and>
                 (\<forall>j<i. culture (cs ! j) < culture (cs ! i)))) \<and>
           (''Culture'' \<notin> set pr \<longrightarrow> culture_top out = None) \<and>
           (eco_conflict out \<longleftrightarrow> ''Eco'' \<in> set pr \<and> eco (transport out) < 5)"
proof -
  from assms obtain tr rk nt ct where
    nt: "insight ''Nightlife'' nightlife pr cities = Inr nt"
    and ct: "insight ''Culture'' culture pr cities = Inr ct"
    and ab: "app_body cities budget' d pr =
           Inr \<lparr>km_total = (int (length cities) - 1) * 300, transport = tr,
                hotel_total = (\<Sum>c\<leftarrow>cs. hotel c * d), food_total = (\<Sum>c\<leftarrow>cs. food c * d),
                transport_cost = cost tr (of_int ((int (length cities) - 1) * 300)),
                transport_time = of_int ((int (length cities) - 1) * 300) / of_int (speed tr),
                total_cost = of_int (\<Sum>c\<leftarrow>cs. hotel c * d) + of_int (\<Sum>c\<leftarrow>cs. food c * d)
                             + cost tr (of_int ((int (length cities) - 1) * 300)),
                risk = rk, nightlife_top = nt, culture_top = ct,
                eco_conflict = (eco tr < 5 \<and> ''Eco'' \<in> set pr)\<rparr>"
    by (rule app_body_resolved)
  have n1: "\<exists>i<length cities. nt = Some (cities ! i) \<and>
              (\<forall>j<length cities. nightlife (cs ! j) \<le> nightlife (cs ! i)) \<and>
              (\<forall>j<i. nightlife (cs ! j) < nightlife (cs ! i))"
    if "''Nightlife'' \<in> set pr"
    using insight_selected[OF that assms(1,2), of nightlife] nt by auto
  have n2: "nt = None" if "''Nightlife'' \<notin> set pr"
    using insight_unselected[OF that, of nightlife cities] nt by simp
  have c1: "\<exists>i<length cities. ct = Some (cities ! i) \<and>
              (\<forall>j<length cities. culture (cs ! j) \<le> culture (cs ! i)) \<and>
              (\<forall>j<i. culture (cs ! j) < culture (cs ! i))"
    if "''Culture'' \<in> set pr"
    using insight_selected[OF that assms(1,2), of culture] ct by auto
  have c2: "ct = None" if "''Culture'' \<notin> set pr"
    using insight_unselected[OF that, of culture cities] ct by simp
  show ?thesis
    using ab n1 n2 c1 c2 by auto
qed

theorem insight_rules_witness:
  "map CITIES [''Sofia'', ''Belgrade'', ''Budapest'', ''Vienna'', ''Prague'', ''Munich'']
     = map Some (map snd CITIES_items) \<and>
   [''Sofia'', ''Belgrade'', ''Budapest'', ''Vienna'', ''Prague'', ''Munich''] \<noteq> [] \<and>
   (3500::int) \<noteq> 0 \<and>
   ''Nightlife'' \<in> set [''Nightlife'', ''Culture''] \<and>
   ''Culture'' \<in> set [''Nightlife'', ''Culture''] \<and>
   (\<exists>out. app_body [''Sofia'', ''Belgrade'', ''Budapest'', ''Vienna'', ''Prague'', ''Munich'']
             3500 3 [''Nightlife'', ''Culture''] = Inr out \<and>
          nightlife_top out = Some ''Budapest'' \<and> culture_top out = Some ''Vienna'' \<and>
          \<not> eco_conflict out) \<and>
   map culture (map snd CITIES_items) = [8, 7, 8, 9, 9, 8] \<and>
   map nightlife (map snd CITIES_items) = [6, 7, 8, 6, 7, 6]"
proof -
  let ?ge = "[''Sofia'', ''Belgrade'', ''Budapest'', ''Vienna'', ''Prague'', ''Munich'']"
  have r: "map CITIES ?ge = map Some (map snd CITIES_items)"
    by (simp add: catalog_defs)
  from insight_rules[OF r, of 3500 3 "[''Nightlife'', ''Culture'']"] obtain out where
    "app_body ?ge 3500 3 [''Nightlife'', ''Culture''] = Inr out" by auto
  moreover have "app_body ?ge 3500 3 [''Nightlife'', ''Culture''] =
    Inr \<lparr>km_total = 1500, transport = Car, hotel_total = 1470, food_total = 444,
       transport_cost = 375, transport_time = 75 / 4, total_cost = 2289, risk = ''LOW'',
       nightlife_top = Some ''Budapest'', culture_top = Some ''Vienna'', eco_conflict = False\<rparr>"
    by (simp add: catalog_defs engine_defs body_defs)
  ultimately have "nightlife_top out = Some ''Budapest'' \<and> culture_top out = Some ''Vienna'' \<and>
          \<not> eco_conflict out" by auto
  with \<open>app_body ?ge 3500 3 [''Nightlife'', ''Culture''] = Inr out\<close> r show ?thesis
    by (auto simp: CITIES_items_def)
qed

section \<open>The example scenarios\<close>

text \<open>
  Claim C8. On the shipped catalog the route "Balkan Core" is Sofia, Belgrade, Budapest and
  its distance is 600. With the priority "Eco" the scores are Car 12, Train 18, Plane 6,
  Bus 14 and Train is selected; with 3 days per city the hotel total is 630, the food total
  195, the transport cost 108, the grand total 933, and a budget of 3500 gives LOW.
  With the priority "Low cost" the scores are Car -1.5, Train -1.08, Plane -2.7, Bus -0.72
  and Bus is selected.
\<close>

theorem example_scenarios:
  "ROUTES ''Balkan Core'' = Some [''Sofia'', ''Belgrade'', ''Budapest''] \<and>
   DISTANCE_PER_SEGMENT = 300 \<and>
   scored \<lparr>budget = 3500, pace = ''normal'', priorities = [''Eco'']\<rparr> 600
     = [(12, Car), (18, Train), (6, Plane), (14, Bus)] \<and>
   app ''Balkan Core'' 3500 3 [''Eco''] =
     Inr \<lparr>km_total = 600, transport = Train, hotel_total = 630, food_total = 195,
          transport_cost = 108, transport_time = 60 / 13, total_cost = 933, risk = ''LOW'',
          nightlife_top = None, culture_top = None, eco_conflict = False\<rparr> \<and>
   scored \<lparr>budget = 3500, pace = ''normal'', priorities = [''Low cost'']\<rparr> 600
     = [(- 1.5, Car), (- 1.08, Train), (- 2.7, Plane), (- 0.72, Bus)] \<and>
   recommend_transport \<lparr>budget = 3500, pace = ''normal'', priorities = [''Low cost'']\<rparr> 600
     = Inr Bus \<and>
   (\<exists>out. app ''Balkan Core'' 3500 3 [''Low cost''] = Inr out \<and> transport out = Bus)"
  by (simp add: catalog_defs engine_defs body_defs)

section \<open>Catalog invariant\<close>

text \<open>
  Claim C9. Every route of the catalog has a non-empty city list and every city name it
  lists is a key of the city catalog. The catalogs are constants: nothing in the script
  assigns to them, so the invariant holds at every point of every run.
\<close>

theorem catalog_invariant:
  "(ROUTES rn = Some cities \<longrightarrow>
      cities \<noteq> [] \<and> (\<forall>c\<in>set cities. \<exists>city. CITIES c = Some city)) \<and>
   dom ROUTES = {''Balkan Core'', ''Central Europe'', ''Grand Explorer''} \<and>
   dom CITIES = {''Sofia'', ''Belgrade'', ''Budapest'', ''Vienna'', ''Prague'', ''Munich''}"
proof -
  have "cities \<noteq> [] \<and> (\<forall>c\<in>set cities. \<exists>city. CITIES c = Some city)"
    if r: "ROUTES rn = Some cities"
  proof -
    from catalog_route[OF r] obtain cs where ne: "cities \<noteq> []"
      and cs: "map CITIES cities = map Some cs" by blast
    have "\<exists>city. CITIES c = Some city" if "c \<in> set cities" for c
    proof -
      from that obtain j where "j < length cities" "cities ! j = c"
        unfolding in_set_conv_nth by blast
      with resolved_nth[OF cs] show ?thesis by blast
    qed
    with ne show ?thesis by blast
  qed
  moreover have "dom ROUTES = {''Balkan Core'', ''Central Europe'', ''Grand Explorer''}"
    by (auto simp: ROUTES_def ROUTES_items_def dom_map_of_conv_image_fst)
  moreover have
    "dom CITIES = {''Sofia'', ''Belgrade'', ''Budapest'', ''Vienna'', ''Prague'', ''Munich''}"
    by (auto simp: CITIES_def CITIES_items_def dom_map_of_conv_image_fst)
  ultimately show ?thesis by blast
qed

theorem catalog_invariant_witness:
  "ROUTES ''Central Europe'' = Some [''Munich'', ''Vienna'', ''Prague'', ''Budapest''] \<and>
   [''Munich'', ''Vienna'', ''Prague'', ''Budapest''] \<noteq> [] \<and>
   (\<exists>city. CITIES ''Munich'' = Some city) \<and> (\<exists>city. CITIES ''Vienna'' = Some city) \<and>
   (\<exists>city. CITIES ''Prague'' = Some city) \<and> (\<exists>city. CITIES ''Budapest'' = Some city)"
proof -
  have r: "ROUTES ''Central Europe'' = Some [''Munich'', ''Vienna'', ''Prague'', ''Budapest'']"
    by (simp add: ROUTES_def ROUTES_items_def)
  from catalog_invariant[of "''Central Europe''" "[''Munich'', ''Vienna'', ''Prague'', ''Budapest'']"] r
  show ?thesis by simp
qed

section \<open>The eco conflict warning is never shown\<close>

text \<open>
  Claim C10. For every distance of at least 0 and every priority list that contains "Eco",
  the mode returned by \<open>recommend_transport\<close> is not Plane and has an eco rating of at least
  5; Plane is the only mode with an eco rating below 5; hence no run of the script on a
  catalog route raises the eco conflict flag.
\<close>

theorem eco_never_conflicts:
  "(''Eco'' \<in> set (priorities p) \<and> 0 \<le> km \<longrightarrow>
      (\<exists>t. recommend_transport p km = Inr t \<and> t \<noteq> Plane \<and> 5 \<le> eco t)) \<and>
   (\<forall>t\<in>set options. eco t < 5 \<longleftrightarrow> t = Plane) \<and>
   (app route_name budget' days_city pr = Inr out \<longrightarrow> \<not> eco_conflict out)"
proof -
  have "\<not> eco_conflict out" if a: "app route_name budget' days_city pr = Inr out"
  proof -
    from a obtain cities where r: "ROUTES route_name = Some cities"
      and ab: "app_body cities budget' days_city pr = Inr out"
      by (auto simp: app_def split: option.splits)
    let ?km = "(int (length cities) - 1) * 300"
    let ?p = "\<lparr>budget = budget', pace = ''normal'', priorities = pr\<rparr>"
    from ab obtain tr where tr: "recommend_transport ?p (of_int ?km) = Inr tr"
      and ec: "eco_conflict out = (eco tr < 5 \<and> ''Eco'' \<in> set pr)"
      by (rule app_body_InrE) simp
    show ?thesis
    proof (cases "''Eco'' \<in> set pr")
      case True
      have "cities \<noteq> []" by (rule catalog_route(1)[OF r])
      then have "1 \<le> int (length cities)" by (cases cities) simp_all
      then have "0 \<le> ?km" by simp
      then have "(0::rat) \<le> of_int ?km" by (simp only: of_int_0_le_iff)
      with eco_recommendation[of ?p "of_int ?km"] True tr have "5 \<le> eco tr" by auto
      with ec show ?thesis by simp
    next
      case False
      with ec show ?thesis by simp
    qed
  qed
  moreover have "\<forall>t\<in>set options. eco t < 5 \<longleftrightarrow> t = Plane"
    by (simp add: options_def Car_def Train_def Plane_def Bus_def)
  ultimately show ?thesis using eco_recommendation[of p km] by blast
qed

theorem eco_never_conflicts_witness:
  "''Eco'' \<in> set (priorities \<lparr>budget = 500, pace = ''normal'',
                              priorities = [''Comfort'', ''Fast'', ''Eco'']\<rparr>) \<and>
   (0::rat) \<le> 300 \<and>
   recommend_transport \<lparr>budget = 500, pace = ''normal'',
                        priorities = [''Comfort'', ''Fast'', ''Eco'']\<rparr> 300 = Inr Train \<and>
   Train \<noteq> Plane \<and> 5 \<le> eco Train \<and> Plane \<in> set options \<and> eco Plane < 5 \<and>
   (\<exists>out. app ''Balkan Core'' 500 1 [''Comfort'', ''Fast'', ''Eco''] = Inr out \<and>
          transport out = Train \<and> \<not> eco_conflict out)"
proof -
  let ?pr = "[''Comfort'', ''Fast'', ''Eco'']"
  have a: "app ''Balkan Core'' 500 1 ?pr =
    Inr \<lparr>km_total = 600, transport = Train, hotel_total = 210, food_total = 65,
         transport_cost = 108, transport_time = 60 / 13, total_cost = 383, risk = ''LOW'',
         nightlife_top = None, culture_top = None, eco_conflict = False\<rparr>"
    by (simp add: catalog_defs engine_defs body_defs)
  have b: "recommend_transport \<lparr>budget = 500, pace = ''normal'', priorities = ?pr\<rparr> 300
             = Inr Train"
    by (simp add: engine_defs)
  have c: "Train \<noteq> Plane \<and> 5 \<le> eco Train \<and> Plane \<in> set options \<and> eco Plane < 5"
    by (simp add: options_def Train_def Plane_def)
  from eco_never_conflicts[of "\<lparr>budget = 500, pace = ''normal'', priorities = ?pr\<rparr>" 300
         "''Balkan Core''" 500 1 ?pr] a b c
  show ?thesis by simp
qed

end
